theory Spec2Isabelle
  imports Complex_Main
begin

section \<open>The asynchronous dispatch loop of object_detection_demo_ssd_async\<close>

text \<open>
  The development embeds the scheduling core of
  \<^verbatim>\<open>demos/object_detection_demo_ssd_async/main.cpp\<close> (section 6, "Init variables", and
  section 7, "Do inference", of \<^verbatim>\<open>main\<close>, lines 303 to 640): the free-request queue
  \<^verbatim>\<open>emptyRequests\<close>, the reorder buffer \<^verbatim>\<open>completedRequestResults\<close>, the two counters
  \<^verbatim>\<open>nextFrameId\<close> and \<^verbatim>\<open>nextFrameIdToShow\<close>, the mode flag \<^verbatim>\<open>isUserSpecifiedMode\<close>,
  the per-mode \<^verbatim>\<open>modeInfo\<close>, the captured \<^verbatim>\<open>callbackException\<close>, the \<^verbatim>\<open>while\<close> loop of
  the control thread and the completion callback that the inference backend runs on its
  own thread.

  The control thread is a small-step machine: one step per lock scope or per branch of an
  iteration, so that a completion callback can be scheduled between any two of them. The
  schedule and everything the environment decides (the clock, the key returned by
  \<^verbatim>\<open>cv::waitKey\<close>, what \<^verbatim>\<open>cap.read\<close> returns, the buffer or the exception a finished request
  hands to its callback) is an explicit list of events. Each statement of the source is
  taken as atomic; \<^verbatim>\<open>int\<close> counters are unbounded integers (the source's \<^verbatim>\<open>int\<close> overflows,
  with undefined behaviour, after \<open>2^31\<close> frames); \<^verbatim>\<open>double\<close> sums are real numbers, so
  rounding is not modelled; memory exhaustion inside the standard containers is not
  modelled. Decoding, drawing and the detection loop over the output buffer do not touch
  the scheduling state and are left out.
\<close>

subsection \<open>Data\<close>

text \<open>
  \<^verbatim>\<open>InferRequest::Ptr\<close>: the requests of the two executable networks. Line 276 creates
  \<^verbatim>\<open>FLAGS_nireq\<close> requests of the user-specified network, line 280 the single request of
  the minimum-latency network.
\<close>

datatype InferRequest = UserSpecifiedRequest nat | MinLatencyRequest

type_synonym frame = nat
  \<comment> \<open>\<^verbatim>\<open>cv::Mat\<close>, opaque\<close>

type_synonym time_point = real
  \<comment> \<open>\<^verbatim>\<open>std::chrono::high_resolution_clock::time_point\<close>, in seconds; the epoch is 0\<close>

type_synonym float_ptr = "nat option"
  \<comment> \<open>\<^verbatim>\<open>const float*\<close>: \<open>None\<close> is \<^verbatim>\<open>nullptr\<close>\<close>

text \<open>\<^verbatim>\<open>struct RequestResult\<close>, lines 303 to 308.\<close>

record RequestResult =
  frame :: frame
  output_ptr :: float_ptr
  startTime :: time_point
  isSameMode :: bool

text \<open>\<^verbatim>\<open>struct ModeInfo\<close>, lines 310 to 315.\<close>

record ModeInfo =
  framesCount :: int
  latencySum :: real
  lastStartTime :: time_point
  lastEndTime :: time_point

text \<open>
  The default member initialisers of \<^verbatim>\<open>ModeInfo\<close>: the counters are zero,
  \<^verbatim>\<open>lastStartTime\<close> is the clock at construction and \<^verbatim>\<open>lastEndTime\<close> is the epoch.
\<close>

definition ModeInfo_ctor :: "time_point \<Rightarrow> ModeInfo" where
  "ModeInfo_ctor t = \<lparr>framesCount = 0, latencySum = 0, lastStartTime = t, lastEndTime = 0\<rparr>"

text \<open>
  What the lambda of lines 523 to 536 captures by value: \<^verbatim>\<open>nextFrameId\<close>, \<^verbatim>\<open>frameMode\<close>,
  \<^verbatim>\<open>frame\<close> and \<^verbatim>\<open>startTime\<close> (the request itself is the key under which the backend
  holds the callback).
\<close>

record Callback =
  cb_nextFrameId :: int
  cb_frameMode :: bool
  cb_frame :: frame
  cb_startTime :: time_point

text \<open>An exception raised inside the \<^verbatim>\<open>try\<close> block of the callback (line 541).\<close>

datatype exn = BackendFailure nat

text \<open>
  What reaches the \<^verbatim>\<open>catch\<close> clauses of \<^verbatim>\<open>main\<close> (lines 630 to 637) from the loop: the
  rethrown callback exception (line 360), the \<^verbatim>\<open>std::logic_error\<close> of line 512, and the
  exception of \<^verbatim>\<open>StartAsync\<close> on a request that is still running.
\<close>

datatype failure = Rethrown exn | LogicError | RequestBusy

text \<open>
  The control points of the control thread: the \<^verbatim>\<open>while\<close> condition (lines 355 to 359),
  the test of line 360, the locked block of lines 364 to 372, the three-way branch of
  lines 374, 497 and 566, the \<^verbatim>\<open>Wait\<close> calls of the Tab handler (lines 473 to 477, holding
  \<^verbatim>\<open>prevMode\<close>), the condition-variable wait (lines 567 to 572), the report after the loop
  (lines 578 to 627) and the end of \<^verbatim>\<open>main\<close>.
\<close>

datatype pc = Top | Check | Lookup | Branch | TabWait bool | Wait | Report | Done

text \<open>The command-line flags the loop reads.\<close>

record config =
  FLAGS_nireq :: nat
  FLAGS_no_show :: bool
  FLAGS_loop_input :: bool

text \<open>
  One line of the latency overlay (lines 447 to 450) as handed to the consumer with the
  frame: the sequence id under which the result was found, the frame, and the two
  operands of the division \<^verbatim>\<open>latencySum / framesCount\<close>.
\<close>

record Delivery =
  d_id :: int
  d_frame :: frame
  d_latencySum :: real
  d_framesCount :: int

record state =
  pc :: pc
  cap_isOpened :: bool
  isUserSpecifiedMode :: bool
  emptyRequests :: "InferRequest list"
  completedRequestResults :: "(int \<times> RequestResult) list"
  nextFrameId :: int
  nextFrameIdToShow :: int
  callbackException :: "exn option"
  modeInfo :: "bool \<Rightarrow> ModeInfo"
  requestResult :: RequestResult
  inflight :: "(InferRequest \<times> Callback) list"
  delivered :: "Delivery list"
  reported :: "(bool \<times> real \<times> int) list"
  exit_status :: "int option"
  failure :: "failure option"

text \<open>
  \<^verbatim>\<open>emptyRequests\<close> is a \<^verbatim>\<open>std::queue\<close>: the head of the list is its front.
  \<^verbatim>\<open>completedRequestResults\<close> is a \<^verbatim>\<open>std::map<int, RequestResult>\<close>, kept as an association
  list. \<^verbatim>\<open>inflight\<close> is the backend: the requests started and not yet completed, each with
  its callback. \<^verbatim>\<open>delivered\<close> and \<^verbatim>\<open>reported\<close> are what the program has shown: the frames
  that went through the branch of line 374, and the per-mode lines of the final report.
\<close>

subsection \<open>The containers\<close>

text \<open>
  \<^verbatim>\<open>std::map::insert\<close> does not replace: when the key is present the map is left as it
  is and nothing is raised.
\<close>

definition map_insert :: "int \<Rightarrow> 'v \<Rightarrow> (int \<times> 'v) list \<Rightarrow> (int \<times> 'v) list" where
  "map_insert k v m = (case map_of m k of None \<Rightarrow> m @ [(k, v)] | Some _ \<Rightarrow> m)"

definition map_erase :: "int \<Rightarrow> (int \<times> 'v) list \<Rightarrow> (int \<times> 'v) list" where
  "map_erase k m = filter (\<lambda>p. fst p \<noteq> k) m"

definition userSpecifiedInferRequests :: "config \<Rightarrow> InferRequest list" where
  "userSpecifiedInferRequests cfg = map UserSpecifiedRequest [0..<FLAGS_nireq cfg]"

definition minLatencyInferRequest :: InferRequest where
  "minLatencyInferRequest = MinLatencyRequest"

text \<open>
  The requests of a mode, as the source selects them in lines 328 to 332, 473 to 477,
  481 to 485 and 584 to 588.
\<close>

definition modeRequests :: "config \<Rightarrow> bool \<Rightarrow> InferRequest list" where
  "modeRequests cfg m = (if m then userSpecifiedInferRequests cfg else [minLatencyInferRequest])"

definition is_idle :: "state \<Rightarrow> InferRequest \<Rightarrow> bool" where
  "is_idle s r = (map_of (inflight s) r = None)"

subsection \<open>Events\<close>

datatype read_result = ReadFrame frame | ReadEmpty | ReadFailedNonEmpty

text \<open>
  What the environment supplies to a step of the control thread: the clock, the key of
  \<^verbatim>\<open>cv::waitKey(1)\<close>, the outcome of \<^verbatim>\<open>cap.read(frame)\<close> and whether the capture is open
  after \<^verbatim>\<open>cap.open\<close> (line 507).
\<close>

record env =
  env_now :: time_point
  env_key :: int
  env_read :: read_result
  env_reopened :: bool

text \<open>
  What a finished request hands to its callback: the buffer of its output blob, or an
  exception from inside the \<^verbatim>\<open>try\<close> block.
\<close>

datatype outcome = Buffer float_ptr | Throws exn

datatype event = Main env | Complete InferRequest outcome

subsection \<open>The control thread\<close>

text \<open>Lines 317 to 340: the state before the loop.\<close>

definition init :: "config \<Rightarrow> state" where
  "init cfg =
    \<lparr>pc = Top,
     cap_isOpened = True,
     isUserSpecifiedMode = True,
     emptyRequests = userSpecifiedInferRequests cfg,
     completedRequestResults = [],
     nextFrameId = 0,
     nextFrameIdToShow = 0,
     callbackException = None,
     modeInfo = (\<lambda>_. ModeInfo_ctor 0),
     requestResult = \<lparr>frame = 0, output_ptr = None, startTime = 0, isSameMode = False\<rparr>,
     inflight = [],
     delivered = [],
     reported = [],
     exit_status = None,
     failure = None\<rparr>"

text \<open>Lines 355 to 359.\<close>

definition loop_condition :: "config \<Rightarrow> state \<Rightarrow> bool" where
  "loop_condition cfg s =
    ((cap_isOpened s
      \<or> completedRequestResults s \<noteq> []
      \<or> ((isUserSpecifiedMode s \<and> length (emptyRequests s) < FLAGS_nireq cfg)
          \<or> (\<not> isUserSpecifiedMode s \<and> length (emptyRequests s) = 0)))
     \<and> callbackException s = None)"

text \<open>An exception that leaves the \<^verbatim>\<open>try\<close> block of \<^verbatim>\<open>main\<close>: lines 630 to 637 return 1.\<close>

definition fail :: "failure \<Rightarrow> state \<Rightarrow> state" where
  "fail f s = s\<lparr>pc := Done, exit_status := Some 1, failure := Some f\<rparr>"

definition main_top :: "config \<Rightarrow> state \<Rightarrow> state" where
  "main_top cfg s = (if loop_condition cfg s then s\<lparr>pc := Check\<rparr> else s\<lparr>pc := Report\<rparr>)"

text \<open>Line 360.\<close>

definition main_check :: "state \<Rightarrow> state" where
  "main_check s =
    (case callbackException s of
       Some e \<Rightarrow> fail (Rethrown e) s
     | None \<Rightarrow> s\<lparr>pc := Lookup\<rparr>)"

text \<open>
  Lines 363 to 372, on the buffer and an id: the entry of the id is copied out and
  erased when it is there; otherwise only the \<^verbatim>\<open>output\<close> field of the fresh local
  \<^verbatim>\<open>requestResult\<close> is set, to \<^verbatim>\<open>nullptr\<close> (its other fields stay uninitialised and are
  not read).
\<close>

definition popIfNext ::
  "(int \<times> RequestResult) list \<Rightarrow> int \<Rightarrow> RequestResult \<times> (int \<times> RequestResult) list" where
  "popIfNext m k =
    (case map_of m k of
       Some r \<Rightarrow> (r, map_erase k m)
     | None \<Rightarrow> (\<lparr>frame = 0, output_ptr = None, startTime = 0, isSameMode = False\<rparr>, m))"

definition main_lookup :: "state \<Rightarrow> state" where
  "main_lookup s =
    (let (r, m) = popIfNext (completedRequestResults s) (nextFrameIdToShow s)
     in s\<lparr>requestResult := r, completedRequestResults := m, pc := Branch\<rparr>)"

text \<open>
  Lines 380 to 382 and 447 to 448: the frame counter of the mode that is active now is
  incremented under \<^verbatim>\<open>isSameMode\<close>; the latency is added to its sum in every case.
\<close>

definition deliver_metrics ::
  "bool \<Rightarrow> RequestResult \<Rightarrow> time_point \<Rightarrow> (bool \<Rightarrow> ModeInfo) \<Rightarrow> (bool \<Rightarrow> ModeInfo)" where
  "deliver_metrics m r now mi =
    (let mi1 = (if isSameMode r
                then mi(m := (mi m)\<lparr>framesCount := framesCount (mi m) + 1\<rparr>)
                else mi)
     in mi1(m := (mi1 m)\<lparr>latencySum := latencySum (mi1 m) + (now - startTime r)\<rparr>))"

text \<open>
  Lines 374 to 496, the branch taken when \<^verbatim>\<open>requestResult.output\<close> is not null. The cursor
  is incremented (line 379), the metrics are updated, the frame is shown with the latency
  line computed from \<^verbatim>\<open>latencySum / framesCount\<close> of the active mode (lines 449 to 450).
  Unless \<^verbatim>\<open>FLAGS_no_show\<close>, the key is read: Esc, q and Q leave the loop (line 467); Tab
  (line 469) saves the mode in \<^verbatim>\<open>prevMode\<close>, flips \<^verbatim>\<open>isUserSpecifiedMode\<close> and goes on to
  wait for requests; any other key goes to the presenter.
\<close>

definition deliver :: "config \<Rightarrow> env \<Rightarrow> state \<Rightarrow> state" where
  "deliver cfg e s =
    (let m = isUserSpecifiedMode s;
         r = requestResult s;
         mi = deliver_metrics m r (env_now e) (modeInfo s);
         d = \<lparr>d_id = nextFrameIdToShow s, d_frame = frame r,
              d_latencySum = latencySum (mi m), d_framesCount = framesCount (mi m)\<rparr>;
         s1 = s\<lparr>nextFrameIdToShow := nextFrameIdToShow s + 1,
                modeInfo := mi,
                delivered := delivered s @ [d]\<rparr>
     in if FLAGS_no_show cfg then s1\<lparr>pc := Top\<rparr>
        else if env_key e = 27 \<or> env_key e = 113 \<or> env_key e = 81 then s1\<lparr>pc := Report\<rparr>
        else if env_key e = 9 then s1\<lparr>isUserSpecifiedMode := \<not> m, pc := TabWait m\<rparr>
        else s1\<lparr>pc := Top\<rparr>)"

text \<open>
  Lines 473 to 489, once the \<^verbatim>\<open>Wait\<close> calls have returned: they are made on the requests
  selected by \<^verbatim>\<open>isUserSpecifiedMode\<close> after the flip of line 471. The queue is replaced by
  the requests selected by the same flag, \<^verbatim>\<open>lastEndTime\<close> of \<^verbatim>\<open>prevMode\<close> is stamped and
  the \<^verbatim>\<open>ModeInfo\<close> of the mode that is now active is constructed afresh.
\<close>

definition tab_waiting :: "config \<Rightarrow> state \<Rightarrow> bool" where
  "tab_waiting cfg s = (\<exists>r \<in> set (modeRequests cfg (isUserSpecifiedMode s)). \<not> is_idle s r)"

definition tab_rebuild :: "config \<Rightarrow> env \<Rightarrow> bool \<Rightarrow> state \<Rightarrow> state" where
  "tab_rebuild cfg e prevMode s =
    (let mi1 = (modeInfo s)(prevMode := (modeInfo s prevMode)\<lparr>lastEndTime := env_now e\<rparr>)
     in s\<lparr>emptyRequests := modeRequests cfg (isUserSpecifiedMode s),
          modeInfo := mi1(isUserSpecifiedMode s := ModeInfo_ctor (env_now e)),
          pc := Top\<rparr>)"

text \<open>
  Lines 497 to 565, the branch taken when the queue is not empty and the capture is
  open. A failed read with an empty frame reopens or releases the capture and continues
  with the next iteration; a failed read with a frame throws. Otherwise the front of the
  queue is popped, the callback is registered with the current \<^verbatim>\<open>nextFrameId\<close> and mode,
  the request is started and \<^verbatim>\<open>nextFrameId\<close> is incremented. \<^verbatim>\<open>StartAsync\<close> throws on a
  request that has not completed.
\<close>

definition admit :: "config \<Rightarrow> env \<Rightarrow> state \<Rightarrow> state" where
  "admit cfg e s =
    (case env_read e of
       ReadEmpty \<Rightarrow>
         (if FLAGS_loop_input cfg then s\<lparr>cap_isOpened := env_reopened e, pc := Top\<rparr>
          else s\<lparr>cap_isOpened := False, pc := Top\<rparr>)
     | ReadFailedNonEmpty \<Rightarrow> fail LogicError s
     | ReadFrame f \<Rightarrow>
         (let request = hd (emptyRequests s);
              s1 = s\<lparr>emptyRequests := tl (emptyRequests s)\<rparr>;
              cb = \<lparr>cb_nextFrameId = nextFrameId s, cb_frameMode = isUserSpecifiedMode s,
                    cb_frame = f, cb_startTime = env_now e\<rparr>
          in if is_idle s request
             then s1\<lparr>inflight := inflight s @ [(request, cb)],
                     nextFrameId := nextFrameId s + 1,
                     pc := Top\<rparr>
             else fail RequestBusy s1))"

text \<open>Lines 374, 497 and 566: the branch of an iteration.\<close>

definition main_branch :: "config \<Rightarrow> env \<Rightarrow> state \<Rightarrow> state" where
  "main_branch cfg e s =
    (if output_ptr (requestResult s) \<noteq> None then deliver cfg e s
     else if emptyRequests s \<noteq> [] \<and> cap_isOpened s then admit cfg e s
     else s\<lparr>pc := Wait\<rparr>)"

text \<open>Line 569: the condition under which the control thread stays in \<^verbatim>\<open>condVar.wait\<close>.\<close>

definition wait_blocked :: "state \<Rightarrow> bool" where
  "wait_blocked s =
    (callbackException s = None \<and> emptyRequests s = [] \<and> completedRequestResults s = [])"

text \<open>
  Lines 578 to 640: the requests of the active mode are waited for, each mode with a
  non-zero frame count is reported with the operands of its latency division, and
  \<^verbatim>\<open>main\<close> returns 0.
\<close>

definition report_waiting :: "config \<Rightarrow> state \<Rightarrow> bool" where
  "report_waiting cfg s = (\<exists>r \<in> set (modeRequests cfg (isUserSpecifiedMode s)). \<not> is_idle s r)"

definition report_lines :: "(bool \<Rightarrow> ModeInfo) \<Rightarrow> (bool \<times> real \<times> int) list" where
  "report_lines mi =
    (if framesCount (mi True) \<noteq> 0
     then [(True, latencySum (mi True), framesCount (mi True))] else [])
    @ (if framesCount (mi False) \<noteq> 0
       then [(False, latencySum (mi False), framesCount (mi False))] else [])"

definition main_report :: "state \<Rightarrow> state" where
  "main_report s = s\<lparr>reported := report_lines (modeInfo s), exit_status := Some 0, pc := Done\<rparr>"

subsection \<open>The completion callback\<close>

text \<open>
  Lines 537 to 560, for the request \<^verbatim>\<open>request\<close> with its captured values. Under the lock:
  the result is inserted under the captured \<^verbatim>\<open>nextFrameId\<close> with
  \<^verbatim>\<open>isSameMode = (frameMode == isUserSpecifiedMode)\<close>, read when the callback runs, and
  the request is pushed to \<^verbatim>\<open>emptyRequests\<close> when the mode is still \<^verbatim>\<open>frameMode\<close>. An
  exception is kept in \<^verbatim>\<open>callbackException\<close> unless one is there already.
\<close>

definition callback :: "InferRequest \<Rightarrow> Callback \<Rightarrow> outcome \<Rightarrow> state \<Rightarrow> state" where
  "callback request cb out s =
    (case out of
       Throws x \<Rightarrow>
         (if callbackException s = None then s\<lparr>callbackException := Some x\<rparr> else s)
     | Buffer p \<Rightarrow>
         s\<lparr>completedRequestResults :=
              map_insert (cb_nextFrameId cb)
                \<lparr>frame = cb_frame cb, output_ptr = p, startTime = cb_startTime cb,
                 isSameMode = (cb_frameMode cb = isUserSpecifiedMode s)\<rparr>
                (completedRequestResults s),
           emptyRequests :=
              (if isUserSpecifiedMode s = cb_frameMode cb
               then emptyRequests s @ [request] else emptyRequests s)\<rparr>)"

definition on_complete :: "InferRequest \<Rightarrow> Callback \<Rightarrow> outcome \<Rightarrow> state \<Rightarrow> state" where
  "on_complete request cb out s =
    callback request cb out (s\<lparr>inflight := filter (\<lambda>p. fst p \<noteq> request) (inflight s)\<rparr>)"

subsection \<open>Runs\<close>

text \<open>
  One event. \<open>None\<close> when the event cannot happen: the process has ended, the request is
  not running, or the control thread is blocked (in the \<^verbatim>\<open>Wait\<close> calls of the Tab handler
  or of the report, or on the condition variable).
\<close>

definition step :: "config \<Rightarrow> event \<Rightarrow> state \<Rightarrow> state option" where
  "step cfg ev s =
    (case ev of
       Complete request out \<Rightarrow>
         (if pc s = Done then None
          else case map_of (inflight s) request of
                 None \<Rightarrow> None
               | Some cb \<Rightarrow> Some (on_complete request cb out s))
     | Main e \<Rightarrow>
         (case pc s of
            Top \<Rightarrow> Some (main_top cfg s)
          | Check \<Rightarrow> Some (main_check s)
          | Lookup \<Rightarrow> Some (main_lookup s)
          | Branch \<Rightarrow> Some (main_branch cfg e s)
          | TabWait prevMode \<Rightarrow>
              (if tab_waiting cfg s then None else Some (tab_rebuild cfg e prevMode s))
          | Wait \<Rightarrow> (if wait_blocked s then None else Some (s\<lparr>pc := Top\<rparr>))
          | Report \<Rightarrow> (if report_waiting cfg s then None else Some (main_report s))
          | Done \<Rightarrow> None))"

fun run :: "config \<Rightarrow> event list \<Rightarrow> state \<Rightarrow> state option" where
  "run cfg [] s = Some s"
| "run cfg (ev # evs) s = (case step cfg ev s of None \<Rightarrow> None | Some s' \<Rightarrow> run cfg evs s')"

subsection \<open>Lock scopes\<close>

text \<open>
  The control points at which the control thread holds \<^verbatim>\<open>mutex\<close>: the
  \<^verbatim>\<open>std::lock_guard\<close> of line 365 covers lines 364 to 372, the \<^verbatim>\<open>std::unique_lock\<close> of
  line 567 covers lines 567 to 572. The \<^verbatim>\<open>while\<close> condition, line 360, the three branches
  of lines 374 to 565 (with the Tab handler) and the report run without it. The callback
  holds it from line 539 to line 559.
\<close>

definition holds_mutex :: "pc \<Rightarrow> bool" where
  "holds_mutex p = (p = Lookup \<or> p = Wait)"

subsection \<open>Predicates on events and states\<close>





definition in_tab_wait :: "state \<Rightarrow> bool" where
  "in_tab_wait s = (case pc s of TabWait _ \<Rightarrow> True | _ \<Rightarrow> False)"

text \<open>
  The invariant of the control flow: a failure ends \<^verbatim>\<open>main\<close> with status 1, a status is
  there only at the end, and in the Tab handler the flag is the negation of \<^verbatim>\<open>prevMode\<close>.
\<close>

definition control_ok :: "state \<Rightarrow> bool" where
  "control_ok s \<longleftrightarrow>
     (failure s \<noteq> None \<longrightarrow> pc s = Done \<and> exit_status s = Some 1)
     \<and> (exit_status s \<noteq> None \<longrightarrow> pc s = Done)
     \<and> (\<forall>p. pc s = TabWait p \<longrightarrow> isUserSpecifiedMode s = (\<not> p))"


text \<open>
  The invariant of the sequence ids: the deliveries are the ids below the cursor in
  order; the ids in flight and the keys of the buffer are pairwise distinct and lie
  between the cursor and \<^verbatim>\<open>nextFrameId\<close>; a result the control thread has taken out of
  the buffer and not yet delivered carries the id of the cursor, which is then neither
  in flight nor in the buffer.
\<close>

definition ids_ok :: "state \<Rightarrow> bool" where
  "ids_ok s \<longleftrightarrow>
     0 \<le> nextFrameIdToShow s \<and> nextFrameIdToShow s \<le> nextFrameId s
     \<and> map d_id (delivered s) = [0..nextFrameIdToShow s - 1]
     \<and> distinct (map (\<lambda>p. cb_nextFrameId (snd p)) (inflight s))
     \<and> distinct (map fst (completedRequestResults s))
     \<and> (\<forall>p \<in> set (inflight s).
          nextFrameIdToShow s \<le> cb_nextFrameId (snd p) \<and> cb_nextFrameId (snd p) < nextFrameId s
          \<and> map_of (completedRequestResults s) (cb_nextFrameId (snd p)) = None)
     \<and> (\<forall>p \<in> set (completedRequestResults s).
          nextFrameIdToShow s \<le> fst p \<and> fst p < nextFrameId s)
     \<and> (pc s = Branch \<and> output_ptr (requestResult s) \<noteq> None \<longrightarrow>
          nextFrameIdToShow s < nextFrameId s
          \<and> map_of (completedRequestResults s) (nextFrameIdToShow s) = None
          \<and> (\<forall>p \<in> set (inflight s). cb_nextFrameId (snd p) \<noteq> nextFrameIdToShow s))"






subsection \<open>Concrete runs\<close>

text \<open>
  Two user-specified requests, frames shown, input not looped. The environments: no key
  and no frame, a frame read at a time, a key pressed at a time. An iteration of the loop
  is four steps of the control thread: condition, line 360, lookup, branch.
\<close>

definition cfg2 :: config where
  "cfg2 = \<lparr>FLAGS_nireq = 2, FLAGS_no_show = False, FLAGS_loop_input = False\<rparr>"

definition tick :: "time_point \<Rightarrow> env" where
  "tick t = \<lparr>env_now = t, env_key = - 1, env_read = ReadEmpty, env_reopened = False\<rparr>"

definition grab :: "time_point \<Rightarrow> frame \<Rightarrow> env" where
  "grab t f = \<lparr>env_now = t, env_key = - 1, env_read = ReadFrame f, env_reopened = False\<rparr>"

definition press :: "time_point \<Rightarrow> int \<Rightarrow> env" where
  "press t k = \<lparr>env_now = t, env_key = k, env_read = ReadEmpty, env_reopened = False\<rparr>"

definition iteration :: "env \<Rightarrow> event list" where
  "iteration e = [Main e, Main e, Main e, Main e]"

text \<open>Frames 10 and 11 are admitted under ids 0 and 1 on the two requests.\<close>

definition two_admitted :: "event list" where
  "two_admitted = iteration (grab 1 10) @ iteration (grab 2 11)"

text \<open>The state a run from the initial state ends in.\<close>

definition after :: "event list \<Rightarrow> state" where
  "after evs = the (run cfg2 evs (init cfg2))"

text \<open>The first request finishes.\<close>

definition first_done :: "event list" where
  "first_done = two_admitted @ [Complete (UserSpecifiedRequest 0) (Buffer (Some 100))]"

text \<open>
  The second request finishes first and the control thread stands before the lookup of
  id 0, which is not in the buffer. The first request finishes first and the control
  thread stands before the lookup of id 0, which is in the buffer, and then before the
  branch.
\<close>

definition lookup_miss :: "event list" where
  "lookup_miss =
    two_admitted @ [Complete (UserSpecifiedRequest 1) (Buffer (Some 101)),
                    Main (tick 3), Main (tick 3)]"

definition lookup_hit :: "event list" where
  "lookup_hit = first_done @ [Main (tick 3), Main (tick 3)]"

definition deliver_next :: "event list" where
  "deliver_next = lookup_hit @ [Main (tick 3)]"

text \<open>The control thread stands before the branch of the first iteration.\<close>

definition first_branch :: "event list" where
  "first_branch = [Main (tick 1), Main (tick 1), Main (tick 1)]"

text \<open>
  A mode switch with a unit in flight. The first request finishes and its frame is
  delivered with the Tab key; the Tab handler completes; the second request finishes
  after the switch and its frame is delivered under the other mode.
\<close>

definition tab_pressed :: "event list" where
  "tab_pressed = first_done @ iteration (press 3 9)"

definition switched :: "event list" where
  "switched = tab_pressed @ [Main (tick 4)]"

definition late_result :: "event list" where
  "late_result =
    switched @ [Complete (UserSpecifiedRequest 1) (Buffer (Some 101)),
                Main (tick 5), Main (tick 5), Main (tick 5)]"

definition late_delivery :: "event list" where
  "late_delivery = late_result @ [Main (tick 5)]"

text \<open>
  After the same switch the input ends: the next read fails, the loop condition is
  evaluated, and the report runs to the end of \<^verbatim>\<open>main\<close>.
\<close>

definition switch_exit :: "event list" where
  "switch_exit = switched @ iteration (tick 5) @ [Main (tick 6)]"

definition switch_end :: "event list" where
  "switch_end = switch_exit @ [Main (tick 6)]"

text \<open>
  Both requests finish before the first frame is delivered with the Tab key; the second
  frame is delivered after the switch.
\<close>

definition both_done_switch :: "event list" where
  "both_done_switch =
    first_done @ [Complete (UserSpecifiedRequest 1) (Buffer (Some 101))]
    @ iteration (press 3 9) @ [Main (tick 4)] @ iteration (tick 5)"






text \<open>
  Both requests are running and the control thread waits on the condition variable;
  both callbacks throw; the control thread wakes up and goes on to the end of \<^verbatim>\<open>main\<close>.
\<close>

definition both_throw :: "event list" where
  "both_throw =
    two_admitted @ iteration (tick 3)
    @ [Complete (UserSpecifiedRequest 0) (Throws (BackendFailure 7)),
       Complete (UserSpecifiedRequest 1) (Throws (BackendFailure 8)),
       Main (tick 4), Main (tick 4), Main (tick 4)]"

text \<open>
  A state in which the id of a running request is already a key of the buffer. No run
  reaches it; it is the input of the insertion of line 546 on a duplicate id.
\<close>

definition duplicate_id :: state where
  "duplicate_id =
    (init cfg2)
      \<lparr>emptyRequests := [UserSpecifiedRequest 1],
       completedRequestResults :=
         [(0, \<lparr>frame = 10, output_ptr = Some 100, startTime = 1, isSameMode = True\<rparr>)],
       nextFrameId := 1,
       inflight :=
         [(UserSpecifiedRequest 0,
           \<lparr>cb_nextFrameId = 0, cb_frameMode = True, cb_frame = 12, cb_startTime = 2\<rparr>)]\<rparr>"


text \<open>
  Three user-specified requests. Three frames are admitted, the first two requests
  finish, the first frame is delivered with the Tab key and the Tab handler completes;
  the second frame is delivered with the Tab key again, while the third request is
  still running.
\<close>

definition cfg3 :: config where
  "cfg3 = \<lparr>FLAGS_nireq = 3, FLAGS_no_show = False, FLAGS_loop_input = False\<rparr>"

definition switch_back :: "event list" where
  "switch_back =
    iteration (grab 1 10) @ iteration (grab 2 11) @ iteration (grab 3 12)
    @ [Complete (UserSpecifiedRequest 0) (Buffer (Some 100)),
       Complete (UserSpecifiedRequest 1) (Buffer (Some 101))]
    @ iteration (press 4 9) @ [Main (tick 5)] @ iteration (press 6 9)"

definition after3 :: "event list \<Rightarrow> state" where
  "after3 evs = the (run cfg3 evs (init cfg3))"

section \<open>Properties\<close>

subsection \<open>Invariants of runs\<close>

text \<open>A property that every step preserves holds after every run that starts in it.\<close>

lemma run_invariant:
  assumes "run cfg evs s = Some s'" and "I s"
    and "\<And>ev a b. ev \<in> set evs \<Longrightarrow> I a \<Longrightarrow> step cfg ev a = Some b \<Longrightarrow> I b"
  shows "I s'"
  using assms
proof (induction evs arbitrary: s)
  case Nil
  then show ?case by simp
next
  case (Cons ev evs)
  from Cons.prems(1) obtain m where m: "step cfg ev s = Some m" and r: "run cfg evs m = Some s'"
    by (auto split: option.splits)
  have "I m"
    by (rule Cons.prems(3) [OF _ Cons.prems(2) m]) simp
  with r show ?case
    by (rule Cons.IH) (rule Cons.prems(3), simp_all)
qed

subsubsection \<open>Requests\<close>
















subsubsection \<open>The buffer\<close>

lemma map_insert_absent: "map_of m k = None \<Longrightarrow> map_insert k v m = m @ [(k, v)]"
  by (simp add: map_insert_def)

lemma map_insert_present: "map_of m k = Some x \<Longrightarrow> map_insert k v m = m"
  by (simp add: map_insert_def)

lemma map_of_map_insert:
  "map_of (map_insert k v m) x = (if x = k \<and> map_of m k = None then Some v else map_of m x)"
proof (cases "map_of m k")
  case None
  then show ?thesis
    by (simp add: map_insert_absent map_add_def split: option.splits)
next
  case (Some y)
  then show ?thesis
    by (simp add: map_insert_present)
qed

lemma set_map_insert: "set (map_insert k v m) \<subseteq> insert (k, v) (set m)"
  by (cases "map_of m k") (simp_all add: map_insert_absent map_insert_present subset_insertI)


lemma distinct_map_insert:
  "distinct (map fst m) \<Longrightarrow> distinct (map fst (map_insert k v m))"
proof (cases "map_of m k")
  case None
  moreover assume "distinct (map fst m)"
  ultimately show ?thesis
    by (simp add: map_insert_absent map_of_eq_None_iff)
next
  case (Some y)
  moreover assume "distinct (map fst m)"
  ultimately show ?thesis
    by (simp add: map_insert_present)
qed

lemma map_of_map_erase: "map_of (map_erase k m) x = (if x = k then None else map_of m x)"
  by (induction m) (auto simp: map_erase_def)

lemma set_map_erase: "set (map_erase k m) = {p \<in> set m. fst p \<noteq> k}"
  by (auto simp: map_erase_def)

lemma distinct_map_erase: "distinct (map fst m) \<Longrightarrow> distinct (map fst (map_erase k m))"
  by (simp add: map_erase_def distinct_map_filter)

subsubsection \<open>Sequence ids\<close>

lemma ids_ok_init: "ids_ok (init cfg)"
  by (simp add: ids_ok_def init_def)

lemma ids_ok_top: "ids_ok s \<Longrightarrow> pc s = Top \<Longrightarrow> ids_ok (main_top cfg s)"
  by (simp add: ids_ok_def main_top_def)

lemma ids_ok_check: "ids_ok s \<Longrightarrow> pc s = Check \<Longrightarrow> ids_ok (main_check s)"
  by (simp add: ids_ok_def main_check_def fail_def split: option.splits)

lemma ids_ok_lookup:
  assumes "ids_ok s" "pc s = Lookup"
  shows "ids_ok (main_lookup s)"
proof (cases "map_of (completedRequestResults s) (nextFrameIdToShow s)")
  case None
  with assms show ?thesis
    by (simp add: ids_ok_def main_lookup_def popIfNext_def)
next
  case (Some r)
  let ?k = "nextFrameIdToShow s"
  let ?m = "completedRequestResults s"
  from Some have s': "main_lookup s =
      s\<lparr>requestResult := r, completedRequestResults := map_erase ?k ?m, pc := Branch\<rparr>"
    by (simp add: main_lookup_def popIfNext_def)
  from Some have "(?k, r) \<in> set ?m"
    by (rule map_of_SomeD)
  with assms have lt: "?k < nextFrameId s"
    unfolding ids_ok_def by fastforce
  have fl: "\<forall>p \<in> set (inflight s). cb_nextFrameId (snd p) \<noteq> ?k"
    using assms(1) Some unfolding ids_ok_def by fastforce
  have er: "\<forall>p \<in> set (inflight s). map_of (map_erase ?k ?m) (cb_nextFrameId (snd p)) = None"
    using assms(1) unfolding ids_ok_def by (simp add: map_of_map_erase)
  have bf: "\<forall>p \<in> set (map_erase ?k ?m). ?k \<le> fst p \<and> fst p < nextFrameId s"
    using assms(1) unfolding ids_ok_def by (simp add: set_map_erase)
  from assms(1) have base: "0 \<le> ?k" "?k \<le> nextFrameId s" "map d_id (delivered s) = [0..?k - 1]"
    "distinct (map (\<lambda>p. cb_nextFrameId (snd p)) (inflight s))" "distinct (map fst ?m)"
    "\<forall>p \<in> set (inflight s). ?k \<le> cb_nextFrameId (snd p) \<and> cb_nextFrameId (snd p) < nextFrameId s"
    unfolding ids_ok_def by blast+
  show ?thesis
    unfolding s' ids_ok_def using base lt fl er bf
    by (simp add: distinct_map_erase map_of_map_erase)
qed

lemma upto_snoc: "0 \<le> n \<Longrightarrow> [0..n - 1] @ [n] = [0..(n::int)]"
  by (simp add: upto_rec2)

lemma ids_ok_deliver:
  assumes "ids_ok s" "pc s = Branch" "output_ptr (requestResult s) \<noteq> None"
  shows "ids_ok (deliver cfg e s)"
proof -
  let ?k = "nextFrameIdToShow s"
  from assms have pend: "?k < nextFrameId s"
    "map_of (completedRequestResults s) ?k = None"
    "\<forall>p \<in> set (inflight s). cb_nextFrameId (snd p) \<noteq> ?k"
    unfolding ids_ok_def by blast+
  from assms(1) have base: "0 \<le> ?k" "map d_id (delivered s) = [0..?k - 1]"
    "distinct (map (\<lambda>p. cb_nextFrameId (snd p)) (inflight s))"
    "distinct (map fst (completedRequestResults s))"
    "\<forall>p \<in> set (inflight s). ?k \<le> cb_nextFrameId (snd p) \<and> cb_nextFrameId (snd p) < nextFrameId s
       \<and> map_of (completedRequestResults s) (cb_nextFrameId (snd p)) = None"
    "\<forall>p \<in> set (completedRequestResults s). ?k \<le> fst p \<and> fst p < nextFrameId s"
    unfolding ids_ok_def by blast+
  from pend(2) have nk: "\<forall>p \<in> set (completedRequestResults s). fst p \<noteq> ?k"
    by (force simp: map_of_eq_None_iff)
  have i1: "\<forall>p \<in> set (inflight s). ?k + 1 \<le> cb_nextFrameId (snd p)"
    using base(5) pend(3) by fastforce
  have i2: "\<forall>p \<in> set (completedRequestResults s). ?k + 1 \<le> fst p"
    using base(6) nk by fastforce
  show ?thesis
    using base pend i1 i2 assms(2)
    by (simp add: ids_ok_def deliver_def Let_def upto_snoc)
qed

lemma ids_ok_admit:
  assumes "ids_ok s" "pc s = Branch" "output_ptr (requestResult s) = None"
  shows "ids_ok (admit cfg e s)"
proof (cases "env_read e")
  case (ReadFrame f)
  from assms(1) have base: "0 \<le> nextFrameIdToShow s" "nextFrameIdToShow s \<le> nextFrameId s"
    "map d_id (delivered s) = [0..nextFrameIdToShow s - 1]"
    "distinct (map (\<lambda>p. cb_nextFrameId (snd p)) (inflight s))"
    "distinct (map fst (completedRequestResults s))"
    "\<forall>p \<in> set (inflight s). nextFrameIdToShow s \<le> cb_nextFrameId (snd p)
       \<and> cb_nextFrameId (snd p) < nextFrameId s
       \<and> map_of (completedRequestResults s) (cb_nextFrameId (snd p)) = None"
    "\<forall>p \<in> set (completedRequestResults s). nextFrameIdToShow s \<le> fst p \<and> fst p < nextFrameId s"
    unfolding ids_ok_def by blast+
  from base(7) have fresh: "map_of (completedRequestResults s) (nextFrameId s) = None"
    by (force simp: map_of_eq_None_iff)
  from base(6) have nf: "nextFrameId s \<notin> (\<lambda>p. cb_nextFrameId (snd p)) ` set (inflight s)"
    by fastforce
  show ?thesis
    using ReadFrame base fresh nf
    by (simp add: ids_ok_def admit_def fail_def Let_def) fastforce
next
  case ReadEmpty
  with assms show ?thesis
    by (simp add: ids_ok_def admit_def)
next
  case ReadFailedNonEmpty
  with assms show ?thesis
    by (simp add: ids_ok_def admit_def fail_def)
qed

lemma ids_ok_branch: "ids_ok s \<Longrightarrow> pc s = Branch \<Longrightarrow> ids_ok (main_branch cfg e s)"
  by (simp add: main_branch_def ids_ok_deliver ids_ok_admit) (simp add: ids_ok_def)

lemma ids_ok_rebuild: "ids_ok s \<Longrightarrow> pc s = TabWait p \<Longrightarrow> ids_ok (tab_rebuild cfg e p s)"
  by (simp add: ids_ok_def tab_rebuild_def Let_def)

lemma ids_ok_wait: "ids_ok s \<Longrightarrow> pc s = Wait \<Longrightarrow> ids_ok (s\<lparr>pc := Top\<rparr>)"
  by (simp add: ids_ok_def)

lemma ids_ok_report: "ids_ok s \<Longrightarrow> pc s = Report \<Longrightarrow> ids_ok (main_report s)"
  by (simp add: ids_ok_def main_report_def)

lemma ids_ok_complete:
  assumes "ids_ok s" "map_of (inflight s) r = Some cb"
  shows "ids_ok (on_complete r cb out s)"
proof -
  let ?k = "nextFrameIdToShow s"
  let ?m = "completedRequestResults s"
  let ?fl = "filter (\<lambda>p. fst p \<noteq> r) (inflight s)"
  let ?id = "cb_nextFrameId cb"
  from assms(2) have mem: "(r, cb) \<in> set (inflight s)"
    by (rule map_of_SomeD)
  from assms(1) have base: "0 \<le> ?k" "?k \<le> nextFrameId s"
    "map d_id (delivered s) = [0..?k - 1]"
    "distinct (map (\<lambda>p. cb_nextFrameId (snd p)) (inflight s))"
    "distinct (map fst ?m)"
    "\<forall>p \<in> set (inflight s). ?k \<le> cb_nextFrameId (snd p)
       \<and> cb_nextFrameId (snd p) < nextFrameId s
       \<and> map_of ?m (cb_nextFrameId (snd p)) = None"
    "\<forall>p \<in> set ?m. ?k \<le> fst p \<and> fst p < nextFrameId s"
    unfolding ids_ok_def by blast+
  from base(6) mem have idb: "?k \<le> ?id" "?id < nextFrameId s" "map_of ?m ?id = None"
    by fastforce+
  have dfl: "distinct (map (\<lambda>p. cb_nextFrameId (snd p)) ?fl)"
    using base(4) by (rule distinct_map_filter)
  from base(4) have inj: "inj_on (\<lambda>p. cb_nextFrameId (snd p)) (set (inflight s))"
    by (simp add: distinct_map)
  have other: "\<forall>p \<in> set ?fl. cb_nextFrameId (snd p) \<noteq> ?id"
  proof
    fix p assume p: "p \<in> set ?fl"
    then have "p \<in> set (inflight s)" and "p \<noteq> (r, cb)" by auto
    with inj mem show "cb_nextFrameId (snd p) \<noteq> ?id"
      using inj_onD [of "\<lambda>p. cb_nextFrameId (snd p)" "set (inflight s)" p "(r, cb)"]
      by auto
  qed
  have pend: "nextFrameIdToShow s < nextFrameId s \<and> map_of ?m ?k = None
      \<and> (\<forall>p \<in> set (inflight s). cb_nextFrameId (snd p) \<noteq> ?k)"
    if "pc s = Branch" "output_ptr (requestResult s) \<noteq> None"
    using assms(1) that unfolding ids_ok_def by blast
  show ?thesis
  proof (cases out)
    case (Throws x)
    with base dfl pend show ?thesis
      by (auto simp: ids_ok_def on_complete_def callback_def)
  next
    case (Buffer b)
    let ?v = "\<lparr>frame = cb_frame cb, output_ptr = b, startTime = cb_startTime cb,
      isSameMode = (cb_frameMode cb = isUserSpecifiedMode s)\<rparr>"
    have keys: "\<forall>p \<in> set (map_insert ?id ?v ?m). ?k \<le> fst p \<and> fst p < nextFrameId s"
      using set_map_insert [of ?id ?v ?m] base(7) idb by fastforce
    have fl: "\<forall>p \<in> set ?fl. ?k \<le> cb_nextFrameId (snd p) \<and> cb_nextFrameId (snd p) < nextFrameId s
       \<and> map_of (map_insert ?id ?v ?m) (cb_nextFrameId (snd p)) = None"
      using base(6) other by (fastforce simp: map_of_map_insert)
    have pend': "map_of (map_insert ?id ?v ?m) ?k = None
      \<and> (\<forall>p \<in> set ?fl. cb_nextFrameId (snd p) \<noteq> ?k)"
      if "pc s = Branch" "output_ptr (requestResult s) \<noteq> None"
      using pend [OF that] mem by (fastforce simp: map_of_map_insert)
    show ?thesis
      using Buffer base(1,2,3) dfl keys fl pend pend' distinct_map_insert [OF base(5), of ?id ?v]
      by (simp add: ids_ok_def on_complete_def callback_def)
  qed
qed

lemma ids_ok_step: "ids_ok s \<Longrightarrow> step cfg ev s = Some s' \<Longrightarrow> ids_ok s'"
  by (auto simp: step_def ids_ok_top ids_ok_check ids_ok_lookup ids_ok_branch
      ids_ok_rebuild ids_ok_wait ids_ok_report ids_ok_complete
      split: event.splits pc.splits if_splits option.splits)

lemma ids_ok_run: "run cfg evs (init cfg) = Some s \<Longrightarrow> ids_ok s"
  by (rule run_invariant [where I = ids_ok]) (auto intro: ids_ok_init ids_ok_step)

subsubsection \<open>Runs without a mode switch\<close>












subsubsection \<open>Runs in which every callback gets a buffer\<close>











subsubsection \<open>Runs that no key ends\<close>




subsubsection \<open>Control flow\<close>

lemma control_ok_step: "control_ok s \<Longrightarrow> step cfg ev s = Some s' \<Longrightarrow> control_ok s'"
  by (auto simp: step_def control_ok_def on_complete_def callback_def main_top_def
      main_check_def fail_def main_lookup_def main_branch_def deliver_def admit_def
      tab_rebuild_def main_report_def Let_def
      split: event.splits option.splits pc.splits if_splits prod.splits read_result.splits
        outcome.splits)

lemma control_ok_init: "control_ok (init cfg)"
  by (simp add: control_ok_def init_def)

lemma control_ok_run: "run cfg evs (init cfg) = Some s \<Longrightarrow> control_ok s"
  by (rule run_invariant [where I = control_ok]) (auto intro: control_ok_init control_ok_step)

subsection \<open>The lookup of the next result\<close>

lemma popIfNext_miss:
  "map_of m k = None \<Longrightarrow>
    popIfNext m k = (\<lparr>frame = 0, output_ptr = None, startTime = 0, isSameMode = False\<rparr>, m)"
  by (simp add: popIfNext_def)

lemma popIfNext_miss_iter:
  "map_of m k = None \<Longrightarrow> ((\<lambda>b. snd (popIfNext b k)) ^^ n) m = m"
  by (induction n) (simp_all add: popIfNext_miss)

lemma popIfNext_hit:
  "output_ptr (fst (popIfNext m k)) \<noteq> None \<Longrightarrow> map_of m k = Some (fst (popIfNext m k))"
  by (cases "map_of m k") (simp_all add: popIfNext_def)

lemma complete_local:
  "nextFrameIdToShow (on_complete r cb out s) = nextFrameIdToShow s
   \<and> requestResult (on_complete r cb out s) = requestResult s
   \<and> pc (on_complete r cb out s) = pc s
   \<and> delivered (on_complete r cb out s) = delivered s"
  by (simp add: on_complete_def callback_def split: outcome.splits)

lemma step_cursor:
  "step cfg ev s = Some s' \<Longrightarrow> nextFrameIdToShow s' \<noteq> nextFrameIdToShow s \<Longrightarrow>
   pc s = Branch \<and> output_ptr (requestResult s) \<noteq> None
   \<and> nextFrameIdToShow s' = nextFrameIdToShow s + 1"
  by (auto simp: step_def complete_local main_top_def main_check_def fail_def main_lookup_def
      main_branch_def deliver_def admit_def tab_rebuild_def main_report_def Let_def
      split: event.splits option.splits pc.splits if_splits prod.splits read_result.splits)

lemma branch_after_miss:
  "output_ptr (requestResult s) = None \<Longrightarrow>
   nextFrameIdToShow (main_branch cfg e s) = nextFrameIdToShow s
   \<and> delivered (main_branch cfg e s) = delivered s"
  by (simp add: main_branch_def admit_def fail_def Let_def split: read_result.splits)

text \<open>
  C6. For every buffer and every id that is not in it, the lookup of lines 364 to 372
  returns a null result and leaves the buffer as it is, however often it is repeated.
  In the loop, an iteration whose lookup misses leaves the buffer, the cursor
  \<^verbatim>\<open>nextFrameIdToShow\<close> and the deliveries unchanged. No event changes the cursor except the
  branch of line 374 on a non-null result, which adds one; a completion callback touches
  neither the cursor nor the result the control thread holds; and the lookup yields a
  non-null result only when it found it under the cursor in the buffer.
\<close>

theorem popIfNext_absent_no_effect:
  "(map_of m k = None \<longrightarrow>
      output_ptr (fst (popIfNext m k)) = None \<and> snd (popIfNext m k) = m
      \<and> ((\<lambda>b. snd (popIfNext b k)) ^^ n) m = m)
   \<and> (pc s = Lookup \<and> map_of (completedRequestResults s) (nextFrameIdToShow s) = None
       \<and> step cfg (Main e1) s = Some s1 \<and> step cfg (Main e2) s1 = Some s2 \<longrightarrow>
         completedRequestResults s1 = completedRequestResults s
         \<and> nextFrameIdToShow s2 = nextFrameIdToShow s \<and> delivered s2 = delivered s)
   \<and> (step cfg ev t = Some t' \<and> nextFrameIdToShow t' \<noteq> nextFrameIdToShow t \<longrightarrow>
         pc t = Branch \<and> output_ptr (requestResult t) \<noteq> None
         \<and> nextFrameIdToShow t' = nextFrameIdToShow t + 1)
   \<and> (step cfg (Complete r out) v = Some v' \<longrightarrow>
         nextFrameIdToShow v' = nextFrameIdToShow v \<and> requestResult v' = requestResult v)
   \<and> (pc u = Lookup \<and> step cfg (Main e3) u = Some u' \<and> output_ptr (requestResult u') \<noteq> None \<longrightarrow>
         map_of (completedRequestResults u) (nextFrameIdToShow u) = Some (requestResult u'))"
proof (intro conjI impI)
  assume "map_of m k = None"
  then show "output_ptr (fst (popIfNext m k)) = None" and "snd (popIfNext m k) = m"
    and "((\<lambda>b. snd (popIfNext b k)) ^^ n) m = m"
    by (simp_all add: popIfNext_miss popIfNext_miss_iter)
next
  assume a: "pc s = Lookup \<and> map_of (completedRequestResults s) (nextFrameIdToShow s) = None
    \<and> step cfg (Main e1) s = Some s1 \<and> step cfg (Main e2) s1 = Some s2"
  then have s1: "s1 = main_lookup s"
    by (auto simp: step_def)
  with a have s1': "completedRequestResults s1 = completedRequestResults s"
    "nextFrameIdToShow s1 = nextFrameIdToShow s" "delivered s1 = delivered s"
    "output_ptr (requestResult s1) = None" "pc s1 = Branch"
    by (simp_all add: main_lookup_def popIfNext_miss)
  with a have "s2 = main_branch cfg e2 s1"
    by (auto simp: step_def)
  with s1' show "completedRequestResults s1 = completedRequestResults s"
    and "nextFrameIdToShow s2 = nextFrameIdToShow s" and "delivered s2 = delivered s"
    by (simp_all add: branch_after_miss)
next
  assume "step cfg ev t = Some t' \<and> nextFrameIdToShow t' \<noteq> nextFrameIdToShow t"
  then show "pc t = Branch" and "output_ptr (requestResult t) \<noteq> None"
    and "nextFrameIdToShow t' = nextFrameIdToShow t + 1"
    using step_cursor [of cfg ev t t'] by simp_all
next
  assume "step cfg (Complete r out) v = Some v'"
  then show "nextFrameIdToShow v' = nextFrameIdToShow v" and "requestResult v' = requestResult v"
    by (auto simp: step_def complete_local split: if_splits option.splits)
next
  assume a: "pc u = Lookup \<and> step cfg (Main e3) u = Some u' \<and> output_ptr (requestResult u') \<noteq> None"
  then have "u' = main_lookup u"
    by (auto simp: step_def)
  with a show "map_of (completedRequestResults u) (nextFrameIdToShow u) = Some (requestResult u')"
    using popIfNext_hit [of "completedRequestResults u" "nextFrameIdToShow u"]
    by (simp add: main_lookup_def split: prod.splits)
qed

lemma run_after: "run cfg2 evs (init cfg2) \<noteq> None \<Longrightarrow> run cfg2 evs (init cfg2) = Some (after evs)"
  by (simp add: after_def)

lemma the_step: "step cfg ev s \<noteq> None \<Longrightarrow> step cfg ev s = Some (the (step cfg ev s))"
  by simp

theorem popIfNext_absent_no_effect_witness:
  "map_of [(1, \<lparr>frame = 11, output_ptr = Some 101, startTime = 2, isSameMode = True\<rparr>)] (0::int) = None
   \<and> ((\<lambda>b. snd (popIfNext b 0)) ^^ 3)
        [(1, \<lparr>frame = 11, output_ptr = Some 101, startTime = 2, isSameMode = True\<rparr>)]
       = [(1, \<lparr>frame = 11, output_ptr = Some 101, startTime = 2, isSameMode = True\<rparr>)]
   \<and> pc (after lookup_miss) = Lookup
   \<and> map_of (completedRequestResults (after lookup_miss)) (nextFrameIdToShow (after lookup_miss)) = None
   \<and> step cfg2 (Main (tick 3)) (after lookup_miss) \<noteq> None
   \<and> step cfg2 (Main (tick 4)) (the (step cfg2 (Main (tick 3)) (after lookup_miss))) \<noteq> None
   \<and> nextFrameIdToShow (the (step cfg2 (Main (tick 4)) (the (step cfg2 (Main (tick 3)) (after lookup_miss)))))
       = nextFrameIdToShow (after lookup_miss)
   \<and> step cfg2 (Main (tick 4)) (after deliver_next) \<noteq> None
   \<and> nextFrameIdToShow (the (step cfg2 (Main (tick 4)) (after deliver_next)))
       \<noteq> nextFrameIdToShow (after deliver_next)
   \<and> pc (after deliver_next) = Branch
   \<and> step cfg2 (Complete (UserSpecifiedRequest 1) (Buffer (Some 101))) (after deliver_next) \<noteq> None
   \<and> requestResult (the (step cfg2 (Complete (UserSpecifiedRequest 1) (Buffer (Some 101))) (after deliver_next)))
       = requestResult (after deliver_next)
   \<and> pc (after lookup_hit) = Lookup
   \<and> step cfg2 (Main (tick 3)) (after lookup_hit) \<noteq> None
   \<and> output_ptr (requestResult (the (step cfg2 (Main (tick 3)) (after lookup_hit)))) \<noteq> None
   \<and> map_of (completedRequestResults (after lookup_hit)) (nextFrameIdToShow (after lookup_hit))
       = Some (requestResult (the (step cfg2 (Main (tick 3)) (after lookup_hit))))"
proof -
  let ?R = "\<lparr>frame = 11, output_ptr = Some 101, startTime = 2, isSameMode = True\<rparr>"
  let ?s = "after lookup_miss"
  let ?s1 = "the (step cfg2 (Main (tick 3)) ?s)"
  let ?s2 = "the (step cfg2 (Main (tick 4)) ?s1)"
  let ?t = "after deliver_next"
  let ?t' = "the (step cfg2 (Main (tick 4)) ?t)"
  let ?c = "Complete (UserSpecifiedRequest 1) (Buffer (Some 101))"
  let ?v' = "the (step cfg2 ?c ?t)"
  let ?u = "after lookup_hit"
  let ?u' = "the (step cfg2 (Main (tick 3)) ?u)"
  have h1: "map_of [(1, ?R)] (0::int) = None" by simp
  have h2: "pc ?s = Lookup" by code_simp
  have h3: "map_of (completedRequestResults ?s) (nextFrameIdToShow ?s) = None" by code_simp
  have n4: "step cfg2 (Main (tick 3)) ?s \<noteq> None" by code_simp
  have n5: "step cfg2 (Main (tick 4)) ?s1 \<noteq> None" by code_simp
  have n6: "step cfg2 (Main (tick 4)) ?t \<noteq> None" by code_simp
  have h7: "nextFrameIdToShow ?t' \<noteq> nextFrameIdToShow ?t" by code_simp
  have n8: "step cfg2 ?c ?t \<noteq> None" by code_simp
  have h9: "pc ?u = Lookup" by code_simp
  have n10: "step cfg2 (Main (tick 3)) ?u \<noteq> None" by code_simp
  have h11: "output_ptr (requestResult ?u') \<noteq> None" by code_simp
  note T = popIfNext_absent_no_effect [where m = "[(1, ?R)]" and k = 0 and n = 3
      and cfg = cfg2 and s = ?s and ?e1.0 = "tick 3" and ?s1.0 = ?s1
      and ?e2.0 = "tick 4" and ?s2.0 = ?s2 and ev = "Main (tick 4)" and t = ?t
      and t' = ?t' and r = "UserSpecifiedRequest 1" and out = "Buffer (Some 101)"
      and v = ?t and v' = ?v' and u = ?u and ?e3.0 = "tick 3" and u' = ?u']
  from T h1 h2 h3 h7 h9 h11 n4 n5 n6 n8 n10
    the_step [OF n4] the_step [OF n5] the_step [OF n6] the_step [OF n8] the_step [OF n10]
  show ?thesis
    by blast
qed

subsection \<open>Delivery in sequence order\<close>







subsection \<open>Leaving the loop\<close>








subsection \<open>No request is started twice\<close>





subsection \<open>Insertion into the buffer\<close>

lemma callback_inserts:
  assumes "run cfg evs (init cfg) = Some s" "step cfg (Complete r (Buffer p)) s = Some s'"
  shows "\<exists>cb. map_of (inflight s) r = Some cb
    \<and> map_of (completedRequestResults s) (cb_nextFrameId cb) = None
    \<and> completedRequestResults s' = completedRequestResults s
        @ [(cb_nextFrameId cb,
            \<lparr>frame = cb_frame cb, output_ptr = p, startTime = cb_startTime cb,
             isSameMode = (cb_frameMode cb = isUserSpecifiedMode s)\<rparr>)]"
proof -
  from assms(2) obtain cb where cb: "map_of (inflight s) r = Some cb"
    and s': "s' = on_complete r cb (Buffer p) s"
    by (auto simp: step_def split: if_splits option.splits)
  from cb have "(r, cb) \<in> set (inflight s)"
    by (rule map_of_SomeD)
  with ids_ok_run [OF assms(1)]
  have fresh: "map_of (completedRequestResults s) (cb_nextFrameId cb) = None"
    by (fastforce simp: ids_ok_def)
  with cb s' show ?thesis
    by (simp add: on_complete_def callback_def map_insert_absent)
qed

text \<open>
  C5, as amended. Inserting a result under an id that is already a key of the buffer
  raises nothing: \<^verbatim>\<open>std::map::insert\<close> leaves the buffer as it is and the new result is
  dropped. No run gets there: the ids of the units in flight are pairwise distinct, the
  keys of the buffer are pairwise distinct, and when a callback runs, its id is not a
  key of the buffer and the insertion adds the entry. A completion callback never ends
  the run by itself.
\<close>

theorem insertion_meets_no_duplicate:
  "(map_of m k = Some x \<longrightarrow> map_insert k v m = m)
   \<and> (run cfg evs (init cfg) = Some s \<and> step cfg (Complete r (Buffer p)) s = Some s' \<longrightarrow>
        (\<exists>cb. map_of (inflight s) r = Some cb
           \<and> map_of (completedRequestResults s) (cb_nextFrameId cb) = None
           \<and> completedRequestResults s' = completedRequestResults s
               @ [(cb_nextFrameId cb,
                   \<lparr>frame = cb_frame cb, output_ptr = p, startTime = cb_startTime cb,
                    isSameMode = (cb_frameMode cb = isUserSpecifiedMode s)\<rparr>)]))
   \<and> (run cfg evs (init cfg) = Some s \<longrightarrow>
        distinct (map (\<lambda>p. cb_nextFrameId (snd p)) (inflight s))
        \<and> distinct (map fst (completedRequestResults s)))
   \<and> (step cfg (Complete q out) t = Some t' \<longrightarrow>
        failure t' = failure t \<and> exit_status t' = exit_status t \<and> pc t' = pc t)"
proof (intro conjI impI)
  assume "map_of m k = Some x"
  then show "map_insert k v m = m"
    by (rule map_insert_present)
next
  assume "run cfg evs (init cfg) = Some s \<and> step cfg (Complete r (Buffer p)) s = Some s'"
  then show "\<exists>cb. map_of (inflight s) r = Some cb
    \<and> map_of (completedRequestResults s) (cb_nextFrameId cb) = None
    \<and> completedRequestResults s' = completedRequestResults s
        @ [(cb_nextFrameId cb,
            \<lparr>frame = cb_frame cb, output_ptr = p, startTime = cb_startTime cb,
             isSameMode = (cb_frameMode cb = isUserSpecifiedMode s)\<rparr>)]"
    using callback_inserts [of cfg evs s r p s'] by simp
next
  assume "run cfg evs (init cfg) = Some s"
  from ids_ok_run [OF this]
  show "distinct (map (\<lambda>p. cb_nextFrameId (snd p)) (inflight s))"
    and "distinct (map fst (completedRequestResults s))"
    by (simp_all add: ids_ok_def)
next
  assume "step cfg (Complete q out) t = Some t'"
  then show "failure t' = failure t" "exit_status t' = exit_status t" "pc t' = pc t"
    by (auto simp: step_def on_complete_def callback_def
        split: if_splits option.splits outcome.splits)
qed

text \<open>
  On a buffer that holds id 0, inserting under id 0 changes nothing. In the run, the
  callback of the first request finds the buffer without its id 0 and adds the entry.
\<close>

theorem insertion_meets_no_duplicate_witness:
  "map_of [(0::int, \<lparr>frame = 10, output_ptr = Some 100, startTime = 1, isSameMode = True\<rparr>)] 0
     = Some \<lparr>frame = 10, output_ptr = Some 100, startTime = 1, isSameMode = True\<rparr>
   \<and> map_insert 0 \<lparr>frame = 12, output_ptr = Some 7, startTime = 2, isSameMode = True\<rparr>
        [(0, \<lparr>frame = 10, output_ptr = Some 100, startTime = 1, isSameMode = True\<rparr>)]
      = [(0, \<lparr>frame = 10, output_ptr = Some 100, startTime = 1, isSameMode = True\<rparr>)]
   \<and> run cfg2 two_admitted (init cfg2) = Some (after two_admitted)
   \<and> step cfg2 (Complete (UserSpecifiedRequest 0) (Buffer (Some 100))) (after two_admitted)
      = Some (after first_done)
   \<and> completedRequestResults (after two_admitted) = []
   \<and> map fst (completedRequestResults (after first_done)) = [0]
   \<and> distinct (map (\<lambda>p. cb_nextFrameId (snd p)) (inflight (after two_admitted)))
   \<and> pc (after first_done) = pc (after two_admitted)"
proof -
  let ?R = "\<lparr>frame = 10, output_ptr = Some 100, startTime = 1, isSameMode = True\<rparr>"
  let ?V = "\<lparr>frame = 12, output_ptr = Some 7, startTime = 2, isSameMode = True\<rparr>"
  let ?t = "after two_admitted"
  let ?c = "Complete (UserSpecifiedRequest 0) (Buffer (Some 100))"
  have h: "map_of [(0::int, ?R)] 0 = Some ?R" by simp
  have "run cfg2 two_admitted (init cfg2) \<noteq> None" by code_simp
  then have r: "run cfg2 two_admitted (init cfg2) = Some ?t" by (rule run_after)
  have st: "step cfg2 ?c ?t = Some (after first_done)" by code_simp
  have e: "completedRequestResults ?t = []" by code_simp
  note T = insertion_meets_no_duplicate [where m = "[(0, ?R)]" and k = 0 and x = ?R and v = ?V
      and cfg = cfg2 and evs = two_admitted and s = ?t and r = "UserSpecifiedRequest 0"
      and p = "Some 100" and s' = "after first_done" and q = "UserSpecifiedRequest 0"
      and out = "Buffer (Some 100)" and t = ?t and t' = "after first_done"]
  from T h have A: "map_insert 0 ?V [(0, ?R)] = [(0, ?R)]"
    by blast
  from T r st obtain cb where "completedRequestResults (after first_done)
      = completedRequestResults ?t @ [(cb_nextFrameId cb,
          \<lparr>frame = cb_frame cb, output_ptr = Some 100, startTime = cb_startTime cb,
           isSameMode = (cb_frameMode cb = isUserSpecifiedMode ?t)\<rparr>)]"
    and "map_of (inflight ?t) (UserSpecifiedRequest 0) = Some cb"
    by blast
  moreover have "map_of (inflight ?t) (UserSpecifiedRequest 0)
      = Some \<lparr>cb_nextFrameId = 0, cb_frameMode = True, cb_frame = 10, cb_startTime = 1\<rparr>"
    by code_simp
  ultimately have B: "map fst (completedRequestResults (after first_done)) = [0]"
    using e by auto
  from T r have C: "distinct (map (\<lambda>p. cb_nextFrameId (snd p)) (inflight ?t))"
    by blast
  from T st have D: "pc (after first_done) = pc ?t"
    by blast
  from h A r st e B C D show ?thesis
    by blast
qed

text \<open>
  C5 as stated fails. A callback that inserts under an id the buffer already holds
  leaves the entry of the buffer in place; no exception is captured, nothing fails and
  the run goes on.
\<close>

theorem duplicate_insert_is_silent:
  "map_option
     (\<lambda>s. (completedRequestResults s, callbackException s, failure s, exit_status s, pc s))
     (step cfg2 (Complete (UserSpecifiedRequest 0) (Buffer (Some 7))) duplicate_id)
   = Some ([(0, \<lparr>frame = 10, output_ptr = Some 100, startTime = 1, isSameMode = True\<rparr>)],
           None, None, None, Top)"
  by code_simp

subsection \<open>Per-mode frame counts\<close>

lemma deliver_metrics_count:
  "framesCount (deliver_metrics m r now mi m)
     = framesCount (mi m) + (if isSameMode r then 1 else 0)
   \<and> deliver_metrics m r now mi (\<not> m) = mi (\<not> m)"
  by (simp add: deliver_metrics_def Let_def)

lemma step_branch: "pc s = Branch \<Longrightarrow> step cfg (Main e) s = Some (main_branch cfg e s)"
  by (simp add: step_def)

lemma delivery_modeInfo:
  assumes "pc s = Branch" "output_ptr (requestResult s) \<noteq> None" "step cfg (Main e) s = Some s'"
  shows "modeInfo s'
    = deliver_metrics (isUserSpecifiedMode s) (requestResult s) (env_now e) (modeInfo s)"
  using assms by (auto simp: step_branch main_branch_def deliver_def Let_def)

lemma count_changes:
  assumes "step cfg ev t = Some t'" "framesCount (modeInfo t' m) \<noteq> framesCount (modeInfo t m)"
  shows "(pc t = Branch \<and> output_ptr (requestResult t) \<noteq> None \<and> isSameMode (requestResult t)
          \<and> m = isUserSpecifiedMode t)
    \<or> in_tab_wait t"
proof (cases ev)
  case (Complete r out)
  with assms show ?thesis
    by (auto simp: step_def on_complete_def callback_def
        split: if_splits option.splits outcome.splits)
next
  case (Main e)
  show ?thesis
  proof (cases "pc t = Branch \<and> output_ptr (requestResult t) \<noteq> None")
    case True
    with assms Main have "modeInfo t'
      = deliver_metrics (isUserSpecifiedMode t) (requestResult t) (env_now e) (modeInfo t)"
      by (simp add: delivery_modeInfo)
    with assms(2) True show ?thesis
      by (cases "m = isUserSpecifiedMode t")
        (auto simp: deliver_metrics_def Let_def split: if_splits)
  next
    case False
    with assms Main show ?thesis
      by (auto simp: step_def main_top_def main_check_def fail_def main_lookup_def
          main_branch_def admit_def main_report_def in_tab_wait_def Let_def
          split: pc.splits if_splits option.splits prod.splits read_result.splits)
  qed
qed

text \<open>
  C2, as amended. On every consumed result the frame count of the mode that is active
  at the delivery is incremented exactly when the result's \<^verbatim>\<open>isSameMode\<close> is true, and the
  \<^verbatim>\<open>ModeInfo\<close> of the other mode is not touched. No other event changes a frame count,
  but for the Tab handler, which resets one. The tag is set by the completion callback:
  it compares the mode captured at submission with the mode that is active when the
  callback runs. A unit whose callback runs after a mode switch is therefore counted in
  the frames of no mode.
\<close>

theorem frames_counted_under_tag:
  "(pc s = Branch \<and> output_ptr (requestResult s) \<noteq> None \<and> step cfg (Main e) s = Some s' \<longrightarrow>
      framesCount (modeInfo s' (isUserSpecifiedMode s))
        = framesCount (modeInfo s (isUserSpecifiedMode s))
          + (if isSameMode (requestResult s) then 1 else 0)
      \<and> modeInfo s' (\<not> isUserSpecifiedMode s) = modeInfo s (\<not> isUserSpecifiedMode s))
   \<and> (step cfg ev t = Some t' \<and> framesCount (modeInfo t' m) \<noteq> framesCount (modeInfo t m) \<longrightarrow>
        (pc t = Branch \<and> output_ptr (requestResult t) \<noteq> None \<and> isSameMode (requestResult t)
         \<and> m = isUserSpecifiedMode t)
        \<or> in_tab_wait t)
   \<and> (run cfg evs (init cfg) = Some u \<and> step cfg (Complete r (Buffer p)) u = Some u' \<longrightarrow>
        (\<exists>cb. map_of (inflight u) r = Some cb
           \<and> map_of (completedRequestResults u') (cb_nextFrameId cb)
               = Some \<lparr>frame = cb_frame cb, output_ptr = p, startTime = cb_startTime cb,
                       isSameMode = (cb_frameMode cb = isUserSpecifiedMode u)\<rparr>))"
proof (intro conjI impI)
  assume a: "pc s = Branch \<and> output_ptr (requestResult s) \<noteq> None \<and> step cfg (Main e) s = Some s'"
  then have "modeInfo s'
    = deliver_metrics (isUserSpecifiedMode s) (requestResult s) (env_now e) (modeInfo s)"
    using delivery_modeInfo [of s cfg e s'] by blast
  then show "framesCount (modeInfo s' (isUserSpecifiedMode s))
      = framesCount (modeInfo s (isUserSpecifiedMode s))
        + (if isSameMode (requestResult s) then 1 else 0)"
    and "modeInfo s' (\<not> isUserSpecifiedMode s) = modeInfo s (\<not> isUserSpecifiedMode s)"
    using deliver_metrics_count [of "isUserSpecifiedMode s" "requestResult s" "env_now e" "modeInfo s"]
    by simp_all
next
  assume "step cfg ev t = Some t' \<and> framesCount (modeInfo t' m) \<noteq> framesCount (modeInfo t m)"
  then show "(pc t = Branch \<and> output_ptr (requestResult t) \<noteq> None \<and> isSameMode (requestResult t)
      \<and> m = isUserSpecifiedMode t)
    \<or> in_tab_wait t"
    using count_changes [of cfg ev t t' m] by simp
next
  assume a: "run cfg evs (init cfg) = Some u \<and> step cfg (Complete r (Buffer p)) u = Some u'"
  with callback_inserts [of cfg evs u r p u'] obtain cb
    where cb: "map_of (inflight u) r = Some cb"
      and fr: "map_of (completedRequestResults u) (cb_nextFrameId cb) = None"
      and ins: "completedRequestResults u' = completedRequestResults u
        @ [(cb_nextFrameId cb,
            \<lparr>frame = cb_frame cb, output_ptr = p, startTime = cb_startTime cb,
             isSameMode = (cb_frameMode cb = isUserSpecifiedMode u)\<rparr>)]"
    by blast
  from fr ins have "map_of (completedRequestResults u') (cb_nextFrameId cb)
      = Some \<lparr>frame = cb_frame cb, output_ptr = p, startTime = cb_startTime cb,
              isSameMode = (cb_frameMode cb = isUserSpecifiedMode u)\<rparr>"
    by (simp add: map_add_def)
  with cb show "\<exists>cb. map_of (inflight u) r = Some cb
      \<and> map_of (completedRequestResults u') (cb_nextFrameId cb)
          = Some \<lparr>frame = cb_frame cb, output_ptr = p, startTime = cb_startTime cb,
                  isSameMode = (cb_frameMode cb = isUserSpecifiedMode u)\<rparr>"
    by blast
qed

text \<open>
  The first frame, tagged true, is counted for the user-specified mode. The second
  request was started in user-specified mode and finishes after the switch: its result
  is tagged false, and its delivery changes the frame count of neither mode.
\<close>

theorem frames_counted_under_tag_witness:
  "pc (after deliver_next) = Branch
   \<and> output_ptr (requestResult (after deliver_next)) \<noteq> None
   \<and> isSameMode (requestResult (after deliver_next))
   \<and> step cfg2 (Main (tick 4)) (after deliver_next) = Some (after (deliver_next @ [Main (tick 4)]))
   \<and> framesCount (modeInfo (after deliver_next) True) = 0
   \<and> framesCount (modeInfo (after (deliver_next @ [Main (tick 4)])) True) = 1
   \<and> run cfg2 switched (init cfg2) = Some (after switched)
   \<and> \<not> isUserSpecifiedMode (after switched)
   \<and> step cfg2 (Complete (UserSpecifiedRequest 1) (Buffer (Some 101))) (after switched) \<noteq> None
   \<and> map_option isSameMode
        (map_of (completedRequestResults
           (the (step cfg2 (Complete (UserSpecifiedRequest 1) (Buffer (Some 101))) (after switched))))
          1)
      = Some False
   \<and> pc (after late_result) = Branch
   \<and> output_ptr (requestResult (after late_result)) \<noteq> None
   \<and> \<not> isSameMode (requestResult (after late_result))
   \<and> step cfg2 (Main (tick 5)) (after late_result) = Some (after late_delivery)
   \<and> framesCount (modeInfo (after late_delivery) False)
       = framesCount (modeInfo (after late_result) False)
   \<and> modeInfo (after late_delivery) True = modeInfo (after late_result) True"
proof -
  let ?s = "after deliver_next" and ?s' = "after (deliver_next @ [Main (tick 4)])"
  let ?u = "after switched"
  let ?c = "Complete (UserSpecifiedRequest 1) (Buffer (Some 101))"
  let ?u' = "the (step cfg2 ?c ?u)"
  let ?v = "after late_result" and ?v' = "after late_delivery"
  have s1: "pc ?s = Branch" "output_ptr (requestResult ?s) \<noteq> None" "isSameMode (requestResult ?s)"
    "isUserSpecifiedMode ?s" "framesCount (modeInfo ?s True) = 0"
    by code_simp+
  have s2: "step cfg2 (Main (tick 4)) ?s = Some ?s'" by code_simp
  have "run cfg2 switched (init cfg2) \<noteq> None" by code_simp
  then have u1: "run cfg2 switched (init cfg2) = Some ?u" by (rule run_after)
  have u2: "\<not> isUserSpecifiedMode ?u" by code_simp
  have u3: "step cfg2 ?c ?u \<noteq> None" by code_simp
  have u4: "map_of (inflight ?u) (UserSpecifiedRequest 1)
      = Some \<lparr>cb_nextFrameId = 1, cb_frameMode = True, cb_frame = 11, cb_startTime = 2\<rparr>"
    by code_simp
  have v1: "pc ?v = Branch" "output_ptr (requestResult ?v) \<noteq> None"
    "\<not> isSameMode (requestResult ?v)" "\<not> isUserSpecifiedMode ?v"
    by code_simp+
  have v2: "step cfg2 (Main (tick 5)) ?v = Some ?v'" by code_simp
  note T1 = frames_counted_under_tag [where cfg = cfg2 and s = ?s and e = "tick 4" and s' = ?s'
      and evs = switched and u = ?u and r = "UserSpecifiedRequest 1" and p = "Some 101"
      and u' = ?u' and ev = "Main (tick 4)" and t = ?s and t' = ?s' and m = True]
  note T2 = frames_counted_under_tag [where cfg = cfg2 and s = ?v and e = "tick 5" and s' = ?v']
  from T1 s1 s2 have A: "framesCount (modeInfo ?s' True) = 1"
    by simp
  from T1 u1 the_step [OF u3] u4 u2
  have B: "map_option isSameMode (map_of (completedRequestResults ?u') 1) = Some False"
    by auto
  from T2 v1 v2 have C: "framesCount (modeInfo ?v' False) = framesCount (modeInfo ?v False)"
    "modeInfo ?v' True = modeInfo ?v True"
    by simp_all
  from s1 s2 A u1 u2 u3 B v1 v2 C show ?thesis
    by blast
qed

text \<open>
  C2 as stated fails. The second unit is in flight across the mode switch and its result
  is tagged false: its delivery adds its latency to the sum of the minimum-latency mode,
  and the frame count of the user-specified mode, under which it was submitted, stays
  at 1. In the other run both requests finish before the switch: the second frame,
  submitted in user-specified mode, is counted for the minimum-latency mode.
\<close>

theorem latency_added_without_tag:
  "run cfg2 late_delivery (init cfg2) \<noteq> None
   \<and> \<not> isSameMode (requestResult (after late_result))
   \<and> step cfg2 (Main (tick 5)) (after late_result) = Some (after late_delivery)
   \<and> latencySum (modeInfo (after late_result) False) = 0
   \<and> latencySum (modeInfo (after late_delivery) False) = 3
   \<and> framesCount (modeInfo (after late_result) True) = 1
   \<and> framesCount (modeInfo (after late_delivery) True) = 1
   \<and> framesCount (modeInfo (after late_delivery) False) = 0
   \<and> map_option (\<lambda>s. (framesCount (modeInfo s True), framesCount (modeInfo s False)))
        (run cfg2 both_done_switch (init cfg2)) = Some (1, 1)"
  by code_simp

subsection \<open>The Tab handler\<close>

lemma tab_flip:
  assumes "pc s = Branch" "output_ptr (requestResult s) \<noteq> None" "\<not> FLAGS_no_show cfg"
    "env_key e = 9" "step cfg (Main e) s = Some s'"
  shows "isUserSpecifiedMode s' = (\<not> isUserSpecifiedMode s)
    \<and> pc s' = TabWait (isUserSpecifiedMode s)
    \<and> emptyRequests s' = emptyRequests s \<and> inflight s' = inflight s"
  using assms by (auto simp: step_branch main_branch_def deliver_def Let_def)

lemma tab_wait_step:
  assumes "pc t = TabWait p" "isUserSpecifiedMode t = (\<not> p)"
  shows "(step cfg (Main e) t = None) = (\<exists>r \<in> set (modeRequests cfg (\<not> p)). \<not> is_idle t r)"
    and "step cfg (Main e) t = Some t' \<Longrightarrow>
      (\<forall>r \<in> set (modeRequests cfg (\<not> p)). is_idle t r)
      \<and> emptyRequests t' = modeRequests cfg (\<not> p)
      \<and> isUserSpecifiedMode t' = (\<not> p) \<and> inflight t' = inflight t \<and> pc t' = Top"
  using assms by (auto simp: step_def tab_waiting_def tab_rebuild_def Let_def split: if_splits)

text \<open>
  C3, as amended. When a Tab key is handled, \<^verbatim>\<open>isUserSpecifiedMode\<close> is flipped first,
  with the previous mode kept in \<^verbatim>\<open>prevMode\<close> and the queue as it was. The control thread
  then waits for the requests of the mode that is active after the flip, the new mode:
  it is blocked exactly as long as one of them is running. When it goes on, every
  request of the new mode is idle, the queue is replaced by all requests of the new mode,
  and the requests in flight are as they were: the requests of the previous mode are not
  waited for.
\<close>

theorem tab_handler_waits_for_new_mode:
  "(pc s = Branch \<and> output_ptr (requestResult s) \<noteq> None \<and> \<not> FLAGS_no_show cfg
    \<and> env_key e = 9 \<and> step cfg (Main e) s = Some s' \<longrightarrow>
      isUserSpecifiedMode s' = (\<not> isUserSpecifiedMode s)
      \<and> pc s' = TabWait (isUserSpecifiedMode s)
      \<and> emptyRequests s' = emptyRequests s \<and> inflight s' = inflight s)
   \<and> (run cfg evs (init cfg) = Some t \<and> pc t = TabWait p \<longrightarrow>
        isUserSpecifiedMode t = (\<not> p)
        \<and> ((step cfg (Main e2) t = None)
             = (\<exists>r \<in> set (modeRequests cfg (\<not> p)). \<not> is_idle t r))
        \<and> (step cfg (Main e2) t = Some t' \<longrightarrow>
             (\<forall>r \<in> set (modeRequests cfg (\<not> p)). is_idle t r)
             \<and> emptyRequests t' = modeRequests cfg (\<not> p)
             \<and> isUserSpecifiedMode t' = (\<not> p) \<and> inflight t' = inflight t \<and> pc t' = Top))"
proof (intro conjI impI)
  assume "pc s = Branch \<and> output_ptr (requestResult s) \<noteq> None \<and> \<not> FLAGS_no_show cfg
    \<and> env_key e = 9 \<and> step cfg (Main e) s = Some s'"
  then show "isUserSpecifiedMode s' = (\<not> isUserSpecifiedMode s)"
    "pc s' = TabWait (isUserSpecifiedMode s)" "emptyRequests s' = emptyRequests s"
    "inflight s' = inflight s"
    using tab_flip [of s cfg e s'] by simp_all
next
  assume a: "run cfg evs (init cfg) = Some t \<and> pc t = TabWait p"
  with control_ok_run [of cfg evs t] show m: "isUserSpecifiedMode t = (\<not> p)"
    by (simp add: control_ok_def)
  from a m show "(step cfg (Main e2) t = None)
      = (\<exists>r \<in> set (modeRequests cfg (\<not> p)). \<not> is_idle t r)"
    by (simp add: tab_wait_step(1))
  {
    assume "step cfg (Main e2) t = Some t'"
    with a m tab_wait_step(2) [of t p cfg e2 t']
    show "\<forall>r \<in> set (modeRequests cfg (\<not> p)). is_idle t r"
      "emptyRequests t' = modeRequests cfg (\<not> p)" "isUserSpecifiedMode t' = (\<not> p)"
      "inflight t' = inflight t" "pc t' = Top"
      by simp_all
  }
qed

text \<open>
  The first switch goes to the minimum-latency mode, whose request is idle: the handler
  goes on at once and the queue holds that request. The switch back finds the third
  user-specified request running, and the handler is blocked.
\<close>

theorem tab_handler_waits_for_new_mode_witness:
  "pc (after deliver_next) = Branch
   \<and> output_ptr (requestResult (after deliver_next)) \<noteq> None
   \<and> \<not> FLAGS_no_show cfg2 \<and> env_key (press 3 9) = 9
   \<and> step cfg2 (Main (press 3 9)) (after deliver_next) = Some (after tab_pressed)
   \<and> isUserSpecifiedMode (after deliver_next) \<and> \<not> isUserSpecifiedMode (after tab_pressed)
   \<and> run cfg2 tab_pressed (init cfg2) = Some (after tab_pressed)
   \<and> pc (after tab_pressed) = TabWait True
   \<and> step cfg2 (Main (tick 4)) (after tab_pressed) = Some (after switched)
   \<and> emptyRequests (after switched) = [MinLatencyRequest]
   \<and> is_idle (after tab_pressed) MinLatencyRequest
   \<and> run cfg3 switch_back (init cfg3) = Some (after3 switch_back)
   \<and> pc (after3 switch_back) = TabWait False
   \<and> \<not> is_idle (after3 switch_back) (UserSpecifiedRequest 2)
   \<and> step cfg3 (Main (tick 7)) (after3 switch_back) = None"
proof -
  let ?s = "after deliver_next" and ?t = "after tab_pressed" and ?t' = "after switched"
  let ?b = "after3 switch_back"
  have s1: "pc ?s = Branch" "output_ptr (requestResult ?s) \<noteq> None" "\<not> FLAGS_no_show cfg2"
    "env_key (press 3 9) = 9" "isUserSpecifiedMode ?s"
    by code_simp+
  have s2: "step cfg2 (Main (press 3 9)) ?s = Some ?t" by code_simp
  have "run cfg2 tab_pressed (init cfg2) \<noteq> None" by code_simp
  then have t1: "run cfg2 tab_pressed (init cfg2) = Some ?t" by (rule run_after)
  have t2: "pc ?t = TabWait True" by code_simp
  have t3: "step cfg2 (Main (tick 4)) ?t = Some ?t'" by code_simp
  have "run cfg3 switch_back (init cfg3) \<noteq> None" by code_simp
  then have b1: "run cfg3 switch_back (init cfg3) = Some ?b" by (simp add: after3_def)
  have b2: "pc ?b = TabWait False" by code_simp
  have b3: "\<not> is_idle ?b (UserSpecifiedRequest 2)" by code_simp
  have b4: "UserSpecifiedRequest 2 \<in> set (modeRequests cfg3 True)" by code_simp
  have m: "modeRequests cfg2 False = [MinLatencyRequest]" by code_simp
  note T1 = tab_handler_waits_for_new_mode [where cfg = cfg2 and s = ?s and e = "press 3 9"
      and s' = ?t and evs = tab_pressed and t = ?t and p = True and ?e2.0 = "tick 4" and t' = ?t']
  note T2 = tab_handler_waits_for_new_mode [where cfg = cfg3 and evs = switch_back and t = ?b
      and p = False and ?e2.0 = "tick 7"]
  from T1 s1 s2 have A: "\<not> isUserSpecifiedMode ?t"
    by simp
  from T1 t1 t2 t3 m have B: "emptyRequests ?t' = [MinLatencyRequest]"
    "is_idle ?t MinLatencyRequest"
    by simp_all
  from T2 b1 b2 b3 b4 have C: "step cfg3 (Main (tick 7)) ?b = None"
    by auto
  from s1 s2 A t1 t2 t3 B b1 b2 b3 C show ?thesis
    by blast
qed

text \<open>
  C3 as stated fails. The Tab handler goes on while the second request, of the previous
  mode, is running, and when it has replaced the queue that request is still running.
\<close>

theorem previous_mode_not_drained:
  "map_option (\<lambda>s. (pc s, isUserSpecifiedMode s, map fst (inflight s)))
      (run cfg2 tab_pressed (init cfg2)) = Some (TabWait True, False, [UserSpecifiedRequest 1])
   \<and> map_option (\<lambda>s. (pc s, isUserSpecifiedMode s, emptyRequests s, map fst (inflight s)))
      (run cfg2 switched (init cfg2))
      = Some (Top, False, [MinLatencyRequest], [UserSpecifiedRequest 1])"
  by code_simp

subsection \<open>The divisor of the latency display\<close>

lemma delivery_display:
  assumes "pc s = Branch" "output_ptr (requestResult s) \<noteq> None" "step cfg (Main e) s = Some s'"
  shows "delivered s' = delivered s @ [last (delivered s')]
    \<and> d_framesCount (last (delivered s'))
        = framesCount (modeInfo s (isUserSpecifiedMode s))
          + (if isSameMode (requestResult s) then 1 else 0)
    \<and> d_latencySum (last (delivered s'))
        = latencySum (modeInfo s (isUserSpecifiedMode s))
          + (env_now e - startTime (requestResult s))"
  using assms
  by (auto simp: step_branch main_branch_def deliver_def deliver_metrics_def Let_def)

lemma report_lines_nonzero: "l \<in> set (report_lines mi) \<Longrightarrow> snd (snd l) \<noteq> 0"
  by (auto simp: report_lines_def split: if_splits)

text \<open>
  C10. On every delivery the latency line divides \<^verbatim>\<open>latencySum\<close> of the active mode by
  its \<^verbatim>\<open>framesCount\<close> as it stands after lines 380 to 382, with no test of the divisor:
  the count before the delivery, plus one when the result is tagged \<^verbatim>\<open>isSameMode\<close>. When
  the result is not tagged and the count of the active mode is zero, the divisor is zero.
  The Tab handler leaves the count of the new mode at zero, so this is the case of the
  first result consumed after a mode switch when its callback ran under the other mode
  than the one it was submitted in. The final report prints the figures of a mode only when its frame
  count is not zero.
\<close>

theorem latency_divisor_can_be_zero:
  "(pc s = Branch \<and> output_ptr (requestResult s) \<noteq> None \<and> step cfg (Main e) s = Some s' \<longrightarrow>
      delivered s' = delivered s @ [last (delivered s')]
      \<and> d_framesCount (last (delivered s'))
          = framesCount (modeInfo s (isUserSpecifiedMode s))
            + (if isSameMode (requestResult s) then 1 else 0)
      \<and> d_latencySum (last (delivered s'))
          = latencySum (modeInfo s (isUserSpecifiedMode s))
            + (env_now e - startTime (requestResult s)))
   \<and> (pc s = Branch \<and> output_ptr (requestResult s) \<noteq> None \<and> step cfg (Main e) s = Some s'
       \<and> \<not> isSameMode (requestResult s) \<and> framesCount (modeInfo s (isUserSpecifiedMode s)) = 0 \<longrightarrow>
         d_framesCount (last (delivered s')) = 0)
   \<and> (pc w = TabWait p \<and> step cfg (Main e3) w = Some w' \<longrightarrow>
        framesCount (modeInfo w' (isUserSpecifiedMode w')) = 0)
   \<and> (l \<in> set (report_lines mi) \<longrightarrow> snd (snd l) \<noteq> 0)
   \<and> (pc t = Report \<and> step cfg (Main e2) t = Some t' \<longrightarrow>
        reported t' = report_lines (modeInfo t) \<and> exit_status t' = Some 0)"
proof (intro conjI impI)
  assume "pc s = Branch \<and> output_ptr (requestResult s) \<noteq> None \<and> step cfg (Main e) s = Some s'"
  then show "delivered s' = delivered s @ [last (delivered s')]"
    "d_framesCount (last (delivered s'))
      = framesCount (modeInfo s (isUserSpecifiedMode s))
        + (if isSameMode (requestResult s) then 1 else 0)"
    "d_latencySum (last (delivered s'))
      = latencySum (modeInfo s (isUserSpecifiedMode s))
        + (env_now e - startTime (requestResult s))"
    using delivery_display [of s cfg e s'] by simp_all
next
  assume "pc s = Branch \<and> output_ptr (requestResult s) \<noteq> None \<and> step cfg (Main e) s = Some s'
    \<and> \<not> isSameMode (requestResult s) \<and> framesCount (modeInfo s (isUserSpecifiedMode s)) = 0"
  then show "d_framesCount (last (delivered s')) = 0"
    using delivery_display [of s cfg e s'] by simp
next
  assume "pc w = TabWait p \<and> step cfg (Main e3) w = Some w'"
  then show "framesCount (modeInfo w' (isUserSpecifiedMode w')) = 0"
    by (auto simp: step_def tab_rebuild_def ModeInfo_ctor_def Let_def split: if_splits)
next
  assume "l \<in> set (report_lines mi)"
  then show "snd (snd l) \<noteq> 0"
    by (rule report_lines_nonzero)
next
  assume "pc t = Report \<and> step cfg (Main e2) t = Some t'"
  then show "reported t' = report_lines (modeInfo t)" "exit_status t' = Some 0"
    by (auto simp: step_def main_report_def split: if_splits)
qed

text \<open>
  The second frame is the first result consumed after the switch and was produced under
  the user-specified mode: its latency line divides 3 by 0. The report at the end of
  that run has a line for the user-specified mode only.
\<close>

theorem latency_divisor_can_be_zero_witness:
  "run cfg2 late_result (init cfg2) \<noteq> None
   \<and> pc (after tab_pressed) = TabWait True
   \<and> step cfg2 (Main (tick 4)) (after tab_pressed) = Some (after switched)
   \<and> framesCount (modeInfo (after switched) (isUserSpecifiedMode (after switched))) = 0
   \<and> pc (after late_result) = Branch
   \<and> output_ptr (requestResult (after late_result)) \<noteq> None
   \<and> \<not> isSameMode (requestResult (after late_result))
   \<and> framesCount (modeInfo (after late_result) (isUserSpecifiedMode (after late_result))) = 0
   \<and> step cfg2 (Main (tick 5)) (after late_result) = Some (after late_delivery)
   \<and> d_framesCount (last (delivered (after late_delivery))) = 0
   \<and> d_latencySum (last (delivered (after late_delivery))) = 3
   \<and> pc (after switch_exit) = Report
   \<and> step cfg2 (Main (tick 6)) (after switch_exit) = Some (after switch_end)
   \<and> reported (after switch_end) = [(True, 2, 1)]
   \<and> report_lines (modeInfo (after switch_exit)) = [(True, 2, 1)]
   \<and> framesCount (modeInfo (after switch_exit) False) = 0"
proof -
  let ?s = "after late_result" and ?s' = "after late_delivery"
  let ?t = "after switch_exit" and ?t' = "after switch_end"
  have r: "run cfg2 late_result (init cfg2) \<noteq> None" by code_simp
  have s1: "pc ?s = Branch" "output_ptr (requestResult ?s) \<noteq> None"
    "\<not> isSameMode (requestResult ?s)" "framesCount (modeInfo ?s (isUserSpecifiedMode ?s)) = 0"
    by code_simp+
  have s2: "step cfg2 (Main (tick 5)) ?s = Some ?s'" by code_simp
  have s3: "latencySum (modeInfo ?s (isUserSpecifiedMode ?s)) = 0"
    "env_now (tick 5) - startTime (requestResult ?s) = 3"
    by code_simp+
  have w1: "pc (after tab_pressed) = TabWait True" by code_simp
  have w2: "step cfg2 (Main (tick 4)) (after tab_pressed) = Some (after switched)" by code_simp
  have t1: "pc ?t = Report" by code_simp
  have t2: "step cfg2 (Main (tick 6)) ?t = Some ?t'" by code_simp
  have t3: "report_lines (modeInfo ?t) = [(True, 2, 1)]" by code_simp
  have t4: "framesCount (modeInfo ?t False) = 0" by code_simp
  note T = latency_divisor_can_be_zero [where cfg = cfg2 and s = ?s and e = "tick 5" and s' = ?s'
      and l = "(True, 2, 1)" and mi = "modeInfo ?t" and t = ?t and ?e2.0 = "tick 6" and t' = ?t'
      and w = "after tab_pressed" and p = True and ?e3.0 = "tick 4" and w' = "after switched"]
  from T s1 s2 have A: "d_framesCount (last (delivered ?s')) = 0"
    by blast
  from T s1 s2 have "d_latencySum (last (delivered ?s'))
      = latencySum (modeInfo ?s (isUserSpecifiedMode ?s))
        + (env_now (tick 5) - startTime (requestResult ?s))"
    by blast
  with s3 have B: "d_latencySum (last (delivered ?s')) = 3"
    by simp
  from T t1 t2 t3 have C: "reported ?t' = [(True, 2, 1)]"
    by simp
  from T w1 w2
  have D: "framesCount (modeInfo (after switched) (isUserSpecifiedMode (after switched))) = 0"
    by blast
  from r w1 w2 D s1 s2 A B t1 t2 C t3 t4 show ?thesis
    by blast
qed

subsection \<open>A captured callback exception\<close>

text \<open>
  C4 on the code. Both requests are running and the control thread waits on the
  condition variable when both callbacks throw. The first exception is the one
  captured. The control thread wakes up, finds the loop condition false, which has
  \<^verbatim>\<open>callbackException == nullptr\<close> as a conjunct, and leaves the loop without reaching the
  \<^verbatim>\<open>std::rethrow_exception\<close> of line 360: \<^verbatim>\<open>main\<close> returns 0 with no failure, two units
  admitted and none delivered. The exception is rethrown, and \<^verbatim>\<open>main\<close> returns 1, only
  when the callback throws after the control thread has evaluated the loop condition and
  before it reaches line 360.
\<close>

theorem captured_exception_not_rethrown:
  "map_option (\<lambda>s. (pc s, callbackException s)) (run cfg2 (two_admitted @ iteration (tick 3)
        @ [Complete (UserSpecifiedRequest 0) (Throws (BackendFailure 7)),
           Complete (UserSpecifiedRequest 1) (Throws (BackendFailure 8)),
           Main (tick 4)]) (init cfg2))
     = Some (Top, Some (BackendFailure 7))
   \<and> map_option (\<lambda>s. (pc s, exit_status s, failure s, callbackException s, nextFrameId s,
         delivered s))
       (run cfg2 both_throw (init cfg2))
     = Some (Done, Some 0, None, Some (BackendFailure 7), 2, [])
   \<and> map_option (\<lambda>s. (pc s, exit_status s, failure s))
       (run cfg2 (two_admitted
          @ [Main (tick 3), Complete (UserSpecifiedRequest 0) (Throws (BackendFailure 7)),
             Main (tick 3)]) (init cfg2))
     = Some (Done, Some 1, Some (Rethrown (BackendFailure 7)))"
  by code_simp

subsection \<open>Accesses outside the lock\<close>

text \<open>
  C9 on the code. The control thread pops \<^verbatim>\<open>emptyRequests\<close> in the branch of line 497
  (lines 516 to 517), flips \<^verbatim>\<open>isUserSpecifiedMode\<close> in the Tab handler (line 471) and
  replaces \<^verbatim>\<open>emptyRequests\<close> there (lines 479 to 485) at control points where it does not
  hold the mutex, while the callback pushes to the same queue and reads the same flag
  under the mutex.
\<close>

theorem shared_state_written_without_mutex:
  "pc (after first_branch) = Branch \<and> \<not> holds_mutex (pc (after first_branch))
   \<and> map_option emptyRequests (step cfg2 (Main (grab 1 10)) (after first_branch))
       = Some [UserSpecifiedRequest 1]
   \<and> emptyRequests (after first_branch) = [UserSpecifiedRequest 0, UserSpecifiedRequest 1]
   \<and> pc (after deliver_next) = Branch \<and> \<not> holds_mutex (pc (after deliver_next))
   \<and> isUserSpecifiedMode (after deliver_next)
   \<and> map_option isUserSpecifiedMode (step cfg2 (Main (press 3 9)) (after deliver_next))
       = Some False
   \<and> pc (after tab_pressed) = TabWait True \<and> \<not> holds_mutex (pc (after tab_pressed))
   \<and> emptyRequests (after tab_pressed) = [UserSpecifiedRequest 0]
   \<and> map_option emptyRequests (step cfg2 (Main (tick 4)) (after tab_pressed))
       = Some [MinLatencyRequest]"
  by code_simp

end
